theory Spec2Isabelle
  imports Main
begin

section \<open>Data model\<close>

text \<open>
  The relay keeps one process-wide \<^verbatim>\<open>sessionCache\<close>, a JavaScript \<^verbatim>\<open>Map\<close> from conversation
  id to an object \<^verbatim>\<open>{ sessionId, timestamp }\<close>. A \<^verbatim>\<open>Map\<close> holds at most one entry per key and
  iterates in insertion order, so it is an association list whose keys are distinct
  (\<open>Map_ok\<close>); time stamps are the integer milliseconds of \<^verbatim>\<open>Date.now()\<close>.
\<close>

record session =
  sessionId :: string
  timestamp :: int

type_synonym cache = "(string \<times> session) list"

definition Map_ok :: "cache \<Rightarrow> bool" where
  "Map_ok c = distinct (map fst c)"

definition Map_get :: "cache \<Rightarrow> string \<Rightarrow> session option" where
  "Map_get c k = map_of c k"

text \<open>\<^verbatim>\<open>Map.prototype.set\<close>: an existing key keeps its place, a new key goes last.\<close>

fun Map_set :: "string \<Rightarrow> session \<Rightarrow> cache \<Rightarrow> cache" where
  "Map_set k v [] = [(k, v)]"
| "Map_set k v ((k', v') # c) = (if k' = k then (k, v) # c else (k', v') # Map_set k v c)"

definition Map_delete :: "string \<Rightarrow> cache \<Rightarrow> cache" where
  "Map_delete k c = filter (\<lambda>kv. fst kv \<noteq> k) c"

subsection \<open>JavaScript values and errors\<close>

text \<open>
  What axios hands back as \<^verbatim>\<open>error.response.data\<close>: the body as text, or, when the body is
  JSON, the parsed value. Only truthiness and \<^verbatim>\<open>.includes\<close> are ever applied to it.
\<close>

datatype jsval =
    JUndefined
  | JNull
  | JBool bool
  | JNum int
  | JStr string
  | JArr "jsval list"
  | JObj "(string \<times> jsval) list"

fun truthy :: "jsval \<Rightarrow> bool" where
  "truthy JUndefined = False"
| "truthy JNull = False"
| "truthy (JBool b) = b"
| "truthy (JNum n) = (n \<noteq> 0)"
| "truthy (JStr s) = (s \<noteq> [])"
| "truthy (JArr xs) = True"
| "truthy (JObj kvs) = True"

text \<open>
  A thrown value: an \<^verbatim>\<open>Error\<close> made by this program with its message, or the engine's
  \<^verbatim>\<open>TypeError\<close> (reading a property of \<^verbatim>\<open>undefined\<close>, calling something that is not a
  function).
\<close>

datatype js_error = Error string | TypeError

text \<open>\<^verbatim>\<open>error.message === "SESSION_EXPIRED"\<close>; the engine's own messages are never that text.\<close>

fun isSessionExpired :: "js_error \<Rightarrow> bool" where
  "isSessionExpired (Error m) = (m = ''SESSION_EXPIRED'')"
| "isSessionExpired TypeError = False"

text \<open>\<^verbatim>\<open>String.prototype.includes\<close>: the pattern occurs as a contiguous run.\<close>

fun str_includes :: "string \<Rightarrow> string \<Rightarrow> bool" where
  "str_includes [] pat = (pat = [])"
| "str_includes (c # cs) pat = (take (length pat) (c # cs) = pat \<or> str_includes cs pat)"

text \<open>
  \<^verbatim>\<open>data.includes(pat)\<close> on a truthy value: substring search on a string, membership on an
  array; an object, a number or \<^verbatim>\<open>true\<close> has no such method and the call throws.
\<close>

fun js_includes :: "jsval \<Rightarrow> string \<Rightarrow> js_error + bool" where
  "js_includes (JStr s) pat = Inr (str_includes s pat)"
| "js_includes (JArr xs) pat = Inr (JStr pat \<in> set xs)"
| "js_includes v pat = Inl TypeError"

subsection \<open>The outside world\<close>

text \<open>
  A rejected axios call carries an optional HTTP response (status and body) and a message.
\<close>

record http_response =
  status :: int
  data :: jsval

record axios_error =
  response :: "http_response option"
  message :: string

text \<open>
  A backend stream delivers its chunks and then either ends (\<^verbatim>\<open>'end'\<close>) or breaks
  (\<^verbatim>\<open>'error'\<close>, with no \<^verbatim>\<open>'end'\<close>).
\<close>

datatype stream_end = Ended | Broken

text \<open>
  The environment: the two configuration values the code reads, and the answer of each
  external service to its \<open>n\<close>-th request (counted from 0, per service). \<open>SESSION_TIMEOUT\<close>
  is the constant of that name, \<^verbatim>\<open>(process.env.MIN_SESSION || 30) * 60 * 1000\<close>, as a whole
  number of milliseconds. A resolved call yields the field the code reads from the payload:
  the access token, the session id, the texts of \<^verbatim>\<open>data.messages\<close> in order (none when the
  payload has no first message), the stream. \<open>clock n\<close> is the value of the \<open>n\<close>-th
  \<^verbatim>\<open>Date.now()\<close>.
\<close>

record env =
  SESSION_TIMEOUT :: int
  STATUS_MESSAGE :: "string option"
  tokenResponse :: "nat \<Rightarrow> axios_error + string"
  sessionResponse :: "nat \<Rightarrow> axios_error + string"
  messageResponse :: "nat \<Rightarrow> axios_error + string list"
  streamResponse :: "nat \<Rightarrow> axios_error + (string list \<times> stream_end)"
  clock :: "nat \<Rightarrow> int"

text \<open>Requests sent out, with the arguments the code passes.\<close>

datatype request =
    TokenRequest
  | SessionRequest string string
  | MessageRequest string string int string
  | StreamRequest string string int "string option"

fun isTokenRequest :: "request \<Rightarrow> bool" where
  "isTokenRequest TokenRequest = True"
| "isTokenRequest r = False"

fun isSessionRequest :: "request \<Rightarrow> bool" where
  "isSessionRequest (SessionRequest t c) = True"
| "isSessionRequest r = False"

fun isMessageRequest :: "request \<Rightarrow> bool" where
  "isMessageRequest (MessageRequest t s n m) = True"
| "isMessageRequest r = False"

fun isStreamRequest :: "request \<Rightarrow> bool" where
  "isStreamRequest (StreamRequest t s n m) = True"
| "isStreamRequest r = False"

text \<open>
  The state threaded through every operation: the cache, the requests issued so far (oldest
  first), the number of clock reads, and the activities sent to the chat caller. A handler
  is run from its first statement to its last with nothing else touching the state in
  between; \<^verbatim>\<open>context.sendActivity\<close> is taken to succeed, and logging is left out.
\<close>

record world =
  sessionCache :: cache
  requests :: "request list"
  clockReads :: nat
  activities :: "string list"

definition calls :: "(request \<Rightarrow> bool) \<Rightarrow> world \<Rightarrow> nat" where
  "calls P s = length (filter P (requests s))"

definition Date_now :: "env \<Rightarrow> world \<Rightarrow> int \<times> world" where
  "Date_now e s = (clock e (clockReads s), s\<lparr>clockReads := Suc (clockReads s)\<rparr>)"

definition sendActivity :: "string \<Rightarrow> world \<Rightarrow> world" where
  "sendActivity m s = s\<lparr>activities := activities s @ [m]\<rparr>"

section \<open>Token provider, session creation, dispatch\<close>

definition getSalesforceToken :: "env \<Rightarrow> world \<Rightarrow> (js_error + string) \<times> world" where
  "getSalesforceToken e s =
     (let s1 = s\<lparr>requests := requests s @ [TokenRequest]\<rparr> in
      case tokenResponse e (calls isTokenRequest s) of
        Inr access_token \<Rightarrow> (Inr access_token, s1)
      | Inl err \<Rightarrow> (Inl (Error ''Failed to get Salesforce token.''), s1))"

definition createEinsteinSession ::
  "env \<Rightarrow> string \<Rightarrow> string \<Rightarrow> world \<Rightarrow> (js_error + string) \<times> world" where
  "createEinsteinSession e accessToken conversationId s =
     (let s1 = s\<lparr>requests := requests s @ [SessionRequest accessToken conversationId]\<rparr> in
      case sessionResponse e (calls isSessionRequest s) of
        Inr sid \<Rightarrow> (Inr sid, s1)
      | Inl err \<Rightarrow> (Inl (Error ''Failed to create Einstein AI session.''), s1))"

text \<open>
  The \<^verbatim>\<open>catch\<close> block of \<^verbatim>\<open>sendEinsteinMessage\<close>, applied to \<^verbatim>\<open>error.response\<close> (absent for a
  network failure and for the \<^verbatim>\<open>TypeError\<close> of an empty \<^verbatim>\<open>messages\<close>); it yields the value
  thrown.
\<close>

definition sendCatch :: "http_response option \<Rightarrow> js_error" where
  "sendCatch r =
     (case r of
        None \<Rightarrow> Error ''Failed to send message to Einstein AI.''
      | Some resp \<Rightarrow>
          if status resp = 404 then Error ''SESSION_EXPIRED''
          else if truthy (data resp) then
            (case js_includes (data resp) ''session not found'' of
               Inl thrown \<Rightarrow> thrown
             | Inr True \<Rightarrow> Error ''SESSION_EXPIRED''
             | Inr False \<Rightarrow> Error ''Failed to send message to Einstein AI.'')
          else Error ''Failed to send message to Einstein AI.'')"

definition sendEinsteinMessage ::
  "env \<Rightarrow> string \<Rightarrow> string \<Rightarrow> string \<Rightarrow> world \<Rightarrow> (js_error + string) \<times> world" where
  "sendEinsteinMessage e accessToken sid userMessage s =
     (let (sequenceId, s1) = Date_now e s;
          s2 = s1\<lparr>requests := requests s1 @ [MessageRequest accessToken sid sequenceId userMessage]\<rparr>
      in case messageResponse e (calls isMessageRequest s) of
           Inr messages \<Rightarrow>
             (case messages of
                m # rest \<Rightarrow> (Inr m, s2)
              | [] \<Rightarrow> (Inl (sendCatch None), s2))
         | Inl err \<Rightarrow> (Inl (sendCatch (response err)), s2))"

section \<open>Session resolution and the sweep\<close>

definition getOrCreateSession ::
  "env \<Rightarrow> string \<Rightarrow> string \<Rightarrow> world \<Rightarrow> (js_error + string) \<times> world" where
  "getOrCreateSession e conversationId accessToken s =
     (let cachedSession = Map_get (sessionCache s) conversationId;
          (now, s1) = Date_now e s
      in case (case cachedSession of
                 Some cs \<Rightarrow> if now - timestamp cs < SESSION_TIMEOUT e then Some cs else None
               | None \<Rightarrow> None) of
           Some cs \<Rightarrow> (Inr (sessionId cs), s1)
         | None \<Rightarrow>
             (case createEinsteinSession e accessToken conversationId s1 of
                (Inl thrown, s2) \<Rightarrow> (Inl thrown, s2)
              | (Inr sid, s2) \<Rightarrow>
                  (Inr sid,
                   s2\<lparr>sessionCache :=
                        Map_set conversationId \<lparr>sessionId = sid, timestamp = now\<rparr>
                          (sessionCache s2)\<rparr>)))"

text \<open>
  The body of the cleanup timer. \<^verbatim>\<open>forEach\<close> visits the entries in order; the callback deletes
  the visited key and counts it when the entry is past the timeout. Only the entry being
  visited is ever deleted, so the entries visited are those the cache holds at the start.
  \<open>sweepLoop\<close> is the iteration over the entries still to visit, \<open>cleanup\<close> the whole
  callback; it returns \<^verbatim>\<open>expiredCount\<close> (which the code only logs) with the new state.
\<close>

fun sweepLoop :: "int \<Rightarrow> int \<Rightarrow> cache \<Rightarrow> cache \<times> nat \<Rightarrow> cache \<times> nat" where
  "sweepLoop now T [] acc = acc"
| "sweepLoop now T ((conversationId, sess) # todo) (c, expiredCount) =
     (if now - timestamp sess > T
      then sweepLoop now T todo (Map_delete conversationId c, expiredCount + 1)
      else sweepLoop now T todo (c, expiredCount))"

definition sweep :: "int \<Rightarrow> int \<Rightarrow> cache \<Rightarrow> cache \<times> nat" where
  "sweep now T c = sweepLoop now T c (c, 0)"

definition cleanup :: "env \<Rightarrow> world \<Rightarrow> nat \<times> world" where
  "cleanup e s =
     (let (now, s1) = Date_now e s;
          (c, expiredCount) = sweep now (SESSION_TIMEOUT e) (sessionCache s1)
      in (expiredCount, s1\<lparr>sessionCache := c\<rparr>))"

text \<open>
  The test of \<^verbatim>\<open>getOrCreateSession\<close> on entry, for a state about to resolve: the conversation
  has a cached session younger than the timeout.
\<close>

definition reusable :: "env \<Rightarrow> string \<Rightarrow> world \<Rightarrow> bool" where
  "reusable e conversationId s =
     (case Map_get (sessionCache s) conversationId of
        None \<Rightarrow> False
      | Some cs \<Rightarrow> clock e (clockReads s) - timestamp cs < SESSION_TIMEOUT e)"

section \<open>Turn handler\<close>

text \<open>
  The fields of the incoming activity the handler reads:
  \<^verbatim>\<open>context.activity.type\<close>, \<^verbatim>\<open>.text\<close> and \<^verbatim>\<open>.conversation.id\<close>.
\<close>

record activity =
  activity_type :: string
  activity_text :: string
  conversation_id :: string

text \<open>The two non-ASCII prefixes of the fixed replies, as their UTF-8 bytes.\<close>

definition hourglass :: string where
  "hourglass = [CHR 0xE2, CHR 0x8F, CHR 0xB3]"

definition cross_mark :: string where
  "cross_mark = [CHR 0xE2, CHR 0x9D, CHR 0x8C]"

definition statusReply :: "env \<Rightarrow> string" where
  "statusReply e =
     hourglass @ '' '' @
       (case STATUS_MESSAGE e of
          Some m \<Rightarrow> if m \<noteq> [] then m else ''Processing your request...''
        | None \<Rightarrow> ''Processing your request...'')"

definition errorReply :: string where
  "errorReply = cross_mark @ '' Error communicating with Salesforce Einstein AI.''"

text \<open>
  The three statements that stand both in the inner \<^verbatim>\<open>try\<close> and in its retry branch: resolve
  the session, dispatch, deliver the reply. The result is the value thrown, if any.
\<close>

definition resolveAndSend ::
  "env \<Rightarrow> string \<Rightarrow> string \<Rightarrow> string \<Rightarrow> world \<Rightarrow> js_error option \<times> world" where
  "resolveAndSend e conversationId accessToken userMessage s =
     (case getOrCreateSession e conversationId accessToken s of
        (Inl thrown, s1) \<Rightarrow> (Some thrown, s1)
      | (Inr sid, s1) \<Rightarrow>
          (case sendEinsteinMessage e accessToken sid userMessage s1 of
             (Inl thrown, s2) \<Rightarrow> (Some thrown, s2)
           | (Inr responseMessage, s2) \<Rightarrow> (None, sendActivity responseMessage s2)))"

text \<open>
  Everything inside the outer \<^verbatim>\<open>try\<close>; the outer \<^verbatim>\<open>catch\<close> turns a thrown value into the
  fixed error reply. \<^verbatim>\<open>retryWithNewSession\<close> is \<^verbatim>\<open>false\<close> whenever the inner \<^verbatim>\<open>catch\<close> tests it.
\<close>

definition turnBody :: "env \<Rightarrow> activity \<Rightarrow> world \<Rightarrow> js_error option \<times> world" where
  "turnBody e a s =
     (let userMessage = activity_text a;
          conversationId = conversation_id a
      in case getSalesforceToken e s of
           (Inl thrown, s1) \<Rightarrow> (Some thrown, s1)
         | (Inr accessToken, s1) \<Rightarrow>
             (let retryWithNewSession = False in
              case resolveAndSend e conversationId accessToken userMessage s1 of
                (None, s2) \<Rightarrow> (None, s2)
              | (Some thrown, s2) \<Rightarrow>
                  if isSessionExpired thrown \<and> \<not> retryWithNewSession then
                    resolveAndSend e conversationId accessToken userMessage
                      (s2\<lparr>sessionCache := Map_delete conversationId (sessionCache s2)\<rparr>)
                  else (Some thrown, s2)))"

definition botLogic :: "env \<Rightarrow> activity \<Rightarrow> world \<Rightarrow> world" where
  "botLogic e a s =
     (if activity_type a = ''message'' then
        (case turnBody e a (sendActivity (statusReply e) s) of
           (None, s1) \<Rightarrow> s1
         | (Some thrown, s1) \<Rightarrow> sendActivity errorReply s1)
      else s)"

text \<open>
  The second copy of the program sends a fixed status line before it looks at the activity
  type; the rest is the same.
\<close>

definition botLogic_part_000 :: "env \<Rightarrow> activity \<Rightarrow> world \<Rightarrow> world" where
  "botLogic_part_000 e a s =
     (let s0 = sendActivity (hourglass @ '' '' @ ''Processing your request...'') s in
      if activity_type a = ''message'' then
        (case turnBody e a s0 of
           (None, s1) \<Rightarrow> s1
         | (Some thrown, s1) \<Rightarrow> sendActivity errorReply s1)
      else s0)"

section \<open>Streaming endpoint\<close>

text \<open>
  \<^verbatim>\<open>req.query.conversationId\<close> and \<^verbatim>\<open>req.query.message\<close>, absent when the parameter is
  omitted.
\<close>

record query =
  query_conversationId :: "string option"
  query_message :: "string option"

text \<open>
  What the handler does to the outbound response: \<^verbatim>\<open>res.write\<close> of one event, or
  \<^verbatim>\<open>res.end()\<close>. An error event carries the JSON text of
  \<^verbatim>\<open>error.response?.data || error.message\<close>; the model keeps the error it is computed from.
\<close>

datatype failure = Thrown js_error | Rejected axios_error

datatype sse_event = DataEvent string | DoneEvent | ErrorEvent failure

datatype out = Write sse_event | End

text \<open>
  The two listeners put on the backend stream, run over what the stream delivers: \<^verbatim>\<open>'data'\<close>
  writes one event per chunk, \<^verbatim>\<open>'end'\<close> writes the final event and ends the response. No
  listener is registered for the stream's \<^verbatim>\<open>'error'\<close>, and the handler's \<^verbatim>\<open>try\<close> block has
  been left by the time the chunks arrive: when the stream breaks, this code writes nothing
  more and does not end the response.
\<close>

fun relay :: "string list \<Rightarrow> stream_end \<Rightarrow> out list" where
  "relay [] Ended = [Write DoneEvent, End]"
| "relay [] Broken = []"
| "relay (chunk # rest) fin = Write (DataEvent chunk) # relay rest fin"

definition streamKey :: "query \<Rightarrow> string" where
  "streamKey q =
     (case query_conversationId q of
        Some c \<Rightarrow> if c \<noteq> [] then c else ''default-conversation''
      | None \<Rightarrow> ''default-conversation'')"

text \<open>
  The inner \<^verbatim>\<open>try\<close>/\<^verbatim>\<open>catch\<close> of the handler: when resolution throws, the entry is deleted and
  resolution is tried once more; what that second try throws goes to the outer \<^verbatim>\<open>catch\<close>.
\<close>

definition resolveWithFallback ::
  "env \<Rightarrow> string \<Rightarrow> string \<Rightarrow> world \<Rightarrow> (js_error + string) \<times> world" where
  "resolveWithFallback e conversationId accessToken s =
     (case getOrCreateSession e conversationId accessToken s of
        (Inr sid, s1) \<Rightarrow> (Inr sid, s1)
      | (Inl thrown, s1) \<Rightarrow>
          getOrCreateSession e conversationId accessToken
            (s1\<lparr>sessionCache := Map_delete conversationId (sessionCache s1)\<rparr>))"

definition streamHandler :: "env \<Rightarrow> query \<Rightarrow> world \<Rightarrow> out list \<times> world" where
  "streamHandler e q s =
     (let conversationId = streamKey q in
      case getSalesforceToken e s of
        (Inl thrown, s1) \<Rightarrow> ([Write (ErrorEvent (Thrown thrown)), End], s1)
      | (Inr accessToken, s1) \<Rightarrow>
          (case resolveWithFallback e conversationId accessToken s1 of
             (Inl thrown, s3) \<Rightarrow> ([Write (ErrorEvent (Thrown thrown)), End], s3)
           | (Inr sid, s3) \<Rightarrow>
               (let (sequenceId, s4) = Date_now e s3;
                    s5 = s4\<lparr>requests := requests s4 @
                           [StreamRequest accessToken sid sequenceId (query_message q)]\<rparr>
                in case streamResponse e (calls isStreamRequest s3) of
                     Inl err \<Rightarrow> ([Write (ErrorEvent (Rejected err)), End], s5)
                   | Inr (chunks, fin) \<Rightarrow> (relay chunks fin, s5))))"

section \<open>Example scenarios\<close>

text \<open>Concrete environments and states on which the theorems below are exercised.\<close>

definition no_response :: axios_error where
  "no_response = \<lparr>response = None, message = ''socket hang up''\<rparr>"

definition http_failure :: "int \<Rightarrow> jsval \<Rightarrow> axios_error" where
  "http_failure st body =
     \<lparr>response = Some \<lparr>status = st, data = body\<rparr>, message = ''Request failed''\<rparr>"

definition example_env ::
  "(nat \<Rightarrow> axios_error + string) \<Rightarrow> (nat \<Rightarrow> axios_error + string list) \<Rightarrow> env" where
  "example_env sess msg =
     \<lparr>SESSION_TIMEOUT = 30 * 60 * 1000,
      STATUS_MESSAGE = None,
      tokenResponse = (\<lambda>n. Inr ''token''),
      sessionResponse = sess,
      messageResponse = msg,
      streamResponse = (\<lambda>n. Inl no_response),
      clock = (\<lambda>n. 5000000 + int n)\<rparr>"

definition example_world :: "cache \<Rightarrow> world" where
  "example_world c = \<lparr>sessionCache = c, requests = [], clockReads = 0, activities = []\<rparr>"

definition example_activity :: activity where
  "example_activity =
     \<lparr>activity_type = ''message'', activity_text = ''hi'', conversation_id = ''conv''\<rparr>"

definition always_404 :: "nat \<Rightarrow> axios_error + string list" where
  "always_404 n = Inl (http_failure 404 (JStr ''Not Found''))"

definition once_404 :: "nat \<Rightarrow> axios_error + string list" where
  "once_404 n = (if n = 0 then Inl (http_failure 404 (JStr ''Not Found'')) else Inr [''hello''])"

definition stream_env :: "string list \<times> stream_end \<Rightarrow> env" where
  "stream_env st =
     (example_env (\<lambda>n. Inr ''fresh'') (\<lambda>n. Inr []))\<lparr>streamResponse := \<lambda>n. Inr st\<rparr>"

definition cached_world :: world where
  "cached_world = example_world [(''conv'', \<lparr>sessionId = ''old'', timestamp = 4000000\<rparr>)]"

section \<open>The cache as a map\<close>

lemma map_of_Map_set: "map_of (Map_set k v c) = (map_of c)(k \<mapsto> v)"
  by (induction c) auto

lemma map_of_Map_delete: "map_of (Map_delete k c) = (map_of c)(k := None)"
  by (induction c) (auto simp: Map_delete_def)

lemma Map_get_Map_set: "Map_get (Map_set k v c) k' = (if k' = k then Some v else Map_get c k')"
  by (simp add: Map_get_def map_of_Map_set)

lemma Map_get_Map_delete: "Map_get (Map_delete k c) k' = (if k' = k then None else Map_get c k')"
  by (simp add: Map_get_def map_of_Map_delete)

lemma keys_Map_set:
  "map fst (Map_set k v c) = (if k \<in> set (map fst c) then map fst c else map fst c @ [k])"
  by (induction c) (fastforce simp: image_iff)+

lemma Map_ok_Map_set: "Map_ok c \<Longrightarrow> Map_ok (Map_set k v c)"
  by (simp add: Map_ok_def keys_Map_set)

lemma Map_ok_Map_delete: "Map_ok c \<Longrightarrow> Map_ok (Map_delete k c)"
  unfolding Map_ok_def Map_delete_def by (simp add: distinct_map_filter)

lemma Map_ok_unique: "Map_ok c \<Longrightarrow> (k, v) \<in> set c \<Longrightarrow> (k, v') \<in> set c \<Longrightarrow> v = v'"
  unfolding Map_ok_def by (rule eq_key_imp_eq_value)

lemma Map_get_filter:
  assumes "Map_ok c"
  shows "Map_get (filter (\<lambda>kv. P (snd kv)) c) k =
           (case Map_get c k of None \<Rightarrow> None | Some v \<Rightarrow> if P v then Some v else None)"
  using assms unfolding Map_ok_def Map_get_def
proof (induction c)
  case Nil
  then show ?case by simp
next
  case (Cons p c)
  obtain k' v' where p: "p = (k', v')" by (cases p)
  from Cons.prems have notin: "k' \<notin> fst ` set c" and d: "distinct (map fst c)"
    by (simp_all add: p)
  from notin have none: "map_of c k' = None"
    by (simp add: map_of_eq_None_iff)
  from notin have "map_of (filter (\<lambda>kv. P (snd kv)) c) k' = None"
    by (auto simp: map_of_eq_None_iff image_iff)
  with Cons.IH[OF d] none show ?case
    by (simp add: p)
qed

section \<open>Session resolution\<close>

lemma calls_append:
  "calls P (s\<lparr>requests := requests s @ rs\<rparr>) = calls P s + length (filter P rs)"
  by (simp add: calls_def)

lemma getOrCreateSession_hit:
  assumes "Map_get (sessionCache s) cid = Some cs"
    and "clock e (clockReads s) - timestamp cs < SESSION_TIMEOUT e"
  shows "getOrCreateSession e cid tk s =
           (Inr (sessionId cs), s\<lparr>clockReads := Suc (clockReads s)\<rparr>)"
  using assms by (simp add: getOrCreateSession_def Date_now_def)

lemma getOrCreateSession_miss_ok:
  assumes "\<not> (\<exists>cs. Map_get (sessionCache s) cid = Some cs \<and>
                 clock e (clockReads s) - timestamp cs < SESSION_TIMEOUT e)"
    and "sessionResponse e (calls isSessionRequest s) = Inr sid"
  shows "getOrCreateSession e cid tk s =
     (Inr sid,
      s\<lparr>sessionCache :=
           Map_set cid \<lparr>sessionId = sid, timestamp = clock e (clockReads s)\<rparr> (sessionCache s),
        requests := requests s @ [SessionRequest tk cid],
        clockReads := Suc (clockReads s)\<rparr>)"
  using assms
  by (auto simp: getOrCreateSession_def Date_now_def createEinsteinSession_def calls_def
      split: option.splits)

lemma getOrCreateSession_miss_fail:
  assumes "\<not> (\<exists>cs. Map_get (sessionCache s) cid = Some cs \<and>
                 clock e (clockReads s) - timestamp cs < SESSION_TIMEOUT e)"
    and "sessionResponse e (calls isSessionRequest s) = Inl err"
  shows "getOrCreateSession e cid tk s =
     (Inl (Error ''Failed to create Einstein AI session.''),
      s\<lparr>requests := requests s @ [SessionRequest tk cid], clockReads := Suc (clockReads s)\<rparr>)"
  using assms
  by (auto simp: getOrCreateSession_def Date_now_def createEinsteinSession_def calls_def
      split: option.splits)

text \<open>
  C3. Session resolution answers from the cache, with no creation request, exactly when the
  conversation has an entry whose age \<open>now - timestamp\<close> is below the timeout; the state
  keeps its cache then. Otherwise it issues exactly one creation request, and when that
  request succeeds it returns the new handle and stores it under the conversation id with
  the time read at the start, all other entries as they were.
\<close>

theorem getOrCreateSession_reuse_iff_live:
  assumes res: "getOrCreateSession e cid tk s = (r, s')"
  shows "((requests s' = requests s) =
            (\<exists>cs. Map_get (sessionCache s) cid = Some cs \<and>
                  clock e (clockReads s) - timestamp cs < SESSION_TIMEOUT e)) \<and>
         (\<forall>cs. Map_get (sessionCache s) cid = Some cs \<and>
               clock e (clockReads s) - timestamp cs < SESSION_TIMEOUT e \<longrightarrow>
               r = Inr (sessionId cs) \<and> sessionCache s' = sessionCache s) \<and>
         (\<not> (\<exists>cs. Map_get (sessionCache s) cid = Some cs \<and>
                  clock e (clockReads s) - timestamp cs < SESSION_TIMEOUT e) \<longrightarrow>
            requests s' = requests s @ [SessionRequest tk cid] \<and>
            (\<forall>sid. sessionResponse e (calls isSessionRequest s) = Inr sid \<longrightarrow>
                r = Inr sid \<and>
                (\<forall>k. Map_get (sessionCache s') k =
                   (if k = cid
                    then Some \<lparr>sessionId = sid, timestamp = clock e (clockReads s)\<rparr>
                    else Map_get (sessionCache s) k))))"
proof (cases "\<exists>cs. Map_get (sessionCache s) cid = Some cs \<and>
               clock e (clockReads s) - timestamp cs < SESSION_TIMEOUT e")
  case True
  then obtain cs where cs: "Map_get (sessionCache s) cid = Some cs"
    "clock e (clockReads s) - timestamp cs < SESSION_TIMEOUT e" by blast
  from getOrCreateSession_hit[OF cs, of tk] res True cs(1) show ?thesis by auto
next
  case False
  show ?thesis
  proof (cases "sessionResponse e (calls isSessionRequest s)")
    case (Inl err)
    from getOrCreateSession_miss_fail[OF False Inl, of tk] res False Inl show ?thesis
      by auto
  next
    case (Inr sid)
    from getOrCreateSession_miss_ok[OF False Inr, of tk] res False Inr show ?thesis
      by (auto simp: Map_get_Map_set)
  qed
qed

theorem getOrCreateSession_reuse_iff_live_witness:
  "getOrCreateSession (example_env (\<lambda>n. Inr ''fresh'') (\<lambda>n. Inr [])) ''conv'' ''token''
       (example_world [(''conv'', \<lparr>sessionId = ''old'', timestamp = 4000000\<rparr>)])
     = (Inr ''old'',
        \<lparr>sessionCache = [(''conv'', \<lparr>sessionId = ''old'', timestamp = 4000000\<rparr>)],
         requests = [], clockReads = 1, activities = []\<rparr>) \<and>
   getOrCreateSession (example_env (\<lambda>n. Inr ''fresh'') (\<lambda>n. Inr [])) ''conv'' ''token''
       (example_world [(''conv'', \<lparr>sessionId = ''old'', timestamp = 3000000\<rparr>)])
     = (Inr ''fresh'',
        \<lparr>sessionCache = [(''conv'', \<lparr>sessionId = ''fresh'', timestamp = 5000000\<rparr>)],
         requests = [SessionRequest ''token'' ''conv''], clockReads = 1, activities = []\<rparr>)"
  using getOrCreateSession_reuse_iff_live
    [of "example_env (\<lambda>n. Inr ''fresh'') (\<lambda>n. Inr [])" "''conv''" "''token''"
        "example_world [(''conv'', \<lparr>sessionId = ''old'', timestamp = 4000000\<rparr>)]"
        "Inr ''old''"
        "\<lparr>sessionCache = [(''conv'', \<lparr>sessionId = ''old'', timestamp = 4000000\<rparr>)],
         requests = [], clockReads = 1, activities = []\<rparr>"]
  by (simp add: getOrCreateSession_def createEinsteinSession_def Date_now_def calls_def
      Map_get_def example_env_def example_world_def)

text \<open>
  C6. When resolution has to create a session (no live entry) and the creation request
  fails, the caller gets the error \<^verbatim>\<open>Failed to create Einstein AI session.\<close> and the cache is
  exactly what it was: nothing is inserted or overwritten.
\<close>

theorem getOrCreateSession_creation_failure:
  assumes miss: "\<not> (\<exists>cs. Map_get (sessionCache s) cid = Some cs \<and>
                       clock e (clockReads s) - timestamp cs < SESSION_TIMEOUT e)"
    and fail: "sessionResponse e (calls isSessionRequest s) = Inl err"
  shows "fst (getOrCreateSession e cid tk s) = Inl (Error ''Failed to create Einstein AI session.'') \<and>
         sessionCache (snd (getOrCreateSession e cid tk s)) = sessionCache s \<and>
         requests (snd (getOrCreateSession e cid tk s)) = requests s @ [SessionRequest tk cid]"
  by (simp add: getOrCreateSession_miss_fail[OF miss fail])

theorem getOrCreateSession_creation_failure_witness:
  "sessionResponse (example_env (\<lambda>n. Inl no_response) (\<lambda>n. Inr []))
       (calls isSessionRequest
          (example_world [(''conv'', \<lparr>sessionId = ''old'', timestamp = 3000000\<rparr>)]))
     = Inl no_response \<and>
   getOrCreateSession (example_env (\<lambda>n. Inl no_response) (\<lambda>n. Inr [])) ''conv'' ''token''
       (example_world [(''conv'', \<lparr>sessionId = ''old'', timestamp = 3000000\<rparr>)])
     = (Inl (Error ''Failed to create Einstein AI session.''),
        \<lparr>sessionCache = [(''conv'', \<lparr>sessionId = ''old'', timestamp = 3000000\<rparr>)],
         requests = [SessionRequest ''token'' ''conv''], clockReads = 1, activities = []\<rparr>)"
  using getOrCreateSession_creation_failure
    [of "example_world [(''conv'', \<lparr>sessionId = ''old'', timestamp = 3000000\<rparr>)]" "''conv''"
        "example_env (\<lambda>n. Inl no_response) (\<lambda>n. Inr [])" no_response "''token''"]
  by (simp add: getOrCreateSession_def createEinsteinSession_def Date_now_def calls_def
      Map_get_def example_env_def example_world_def)

section \<open>The sweep\<close>

lemma sweepLoop_eq:
  "sweepLoop now T todo (c, n) =
     (filter (\<lambda>kv. \<not> (\<exists>v. (fst kv, v) \<in> set todo \<and> now - timestamp v > T)) c,
      n + length (filter (\<lambda>kv. now - timestamp (snd kv) > T) todo))"
proof (induction todo arbitrary: c n)
  case Nil
  then show ?case by simp
next
  case (Cons p todo)
  obtain k v where p: "p = (k, v)" by (cases p)
  show ?case
    unfolding p by (auto simp: Cons.IH Map_delete_def intro!: filter_cong)
qed

lemma sweep_filter:
  assumes "Map_ok c"
  shows "sweep now T c =
     (filter (\<lambda>kv. \<not> now - timestamp (snd kv) > T) c,
      length (filter (\<lambda>kv. now - timestamp (snd kv) > T) c))"
proof -
  have "filter (\<lambda>kv. \<not> (\<exists>v. (fst kv, v) \<in> set c \<and> now - timestamp v > T)) c
      = filter (\<lambda>kv. \<not> now - timestamp (snd kv) > T) c"
  proof (rule filter_cong[OF refl])
    fix kv assume "kv \<in> set c"
    then have "(fst kv, snd kv) \<in> set c" by simp
    then show "(\<not> (\<exists>v. (fst kv, v) \<in> set c \<and> now - timestamp v > T))
                 = (\<not> now - timestamp (snd kv) > T)"
      using Map_ok_unique[OF assms] by blast
  qed
  then show ?thesis by (simp add: sweep_def sweepLoop_eq)
qed

lemma cleanup_eq:
  assumes "Map_ok (sessionCache s)"
  shows "cleanup e s =
     (length (filter (\<lambda>kv. clock e (clockReads s) - timestamp (snd kv) > SESSION_TIMEOUT e)
                (sessionCache s)),
      s\<lparr>sessionCache :=
           filter (\<lambda>kv. \<not> clock e (clockReads s) - timestamp (snd kv) > SESSION_TIMEOUT e)
             (sessionCache s),
        clockReads := Suc (clockReads s)\<rparr>)"
  by (simp add: cleanup_def Date_now_def sweep_filter[OF assms])

text \<open>
  C4. One run of the cleanup timer at time \<open>now\<close> removes exactly the entries with
  \<open>now - timestamp > timeout\<close>: the cache afterwards is the old one without them, in the same
  order, so every other conversation keeps its handle and its time stamp, and the count is
  the number of entries removed.
\<close>

theorem cleanup_removes_exactly_expired:
  assumes ok: "Map_ok (sessionCache s)"
    and res: "cleanup e s = (expiredCount, s')"
    and now: "now = clock e (clockReads s)"
  shows "sessionCache s' =
           filter (\<lambda>kv. \<not> now - timestamp (snd kv) > SESSION_TIMEOUT e) (sessionCache s) \<and>
         (\<forall>k. Map_get (sessionCache s') k =
            (case Map_get (sessionCache s) k of
               None \<Rightarrow> None
             | Some v \<Rightarrow> if now - timestamp v > SESSION_TIMEOUT e then None else Some v)) \<and>
         expiredCount =
           length (filter (\<lambda>kv. now - timestamp (snd kv) > SESSION_TIMEOUT e) (sessionCache s)) \<and>
         expiredCount = length (sessionCache s) - length (sessionCache s') \<and>
         Map_ok (sessionCache s')"
proof -
  let ?old = "\<lambda>v. now - timestamp v > SESSION_TIMEOUT e"
  from res cleanup_eq[OF ok, of e] now
  have c: "sessionCache s' = filter (\<lambda>kv. \<not> ?old (snd kv)) (sessionCache s)"
    and n: "expiredCount = length (filter (\<lambda>kv. ?old (snd kv)) (sessionCache s))"
    by auto
  have g: "Map_get (sessionCache s') k =
            (case Map_get (sessionCache s) k of
               None \<Rightarrow> None
             | Some v \<Rightarrow> if ?old v then None else Some v)" for k
    unfolding c using Map_get_filter[OF ok, of "\<lambda>v. \<not> ?old v" k]
    by (simp split: option.splits)
  have l: "expiredCount = length (sessionCache s) - length (sessionCache s')"
    unfolding c n using sum_length_filter_compl[of "\<lambda>kv. ?old (snd kv)" "sessionCache s"]
    by simp
  have m: "Map_ok (sessionCache s')"
    using ok unfolding c Map_ok_def by (simp add: distinct_map_filter)
  from c g n l m show ?thesis by blast
qed

theorem cleanup_removes_exactly_expired_witness:
  "Map_ok [(''a'', \<lparr>sessionId = ''s1'', timestamp = 3000000\<rparr>),
           (''b'', \<lparr>sessionId = ''s2'', timestamp = 4000000\<rparr>),
           (''c'', \<lparr>sessionId = ''s3'', timestamp = 1000\<rparr>)] \<and>
   cleanup (example_env (\<lambda>n. Inr ''fresh'') (\<lambda>n. Inr []))
     (example_world [(''a'', \<lparr>sessionId = ''s1'', timestamp = 3000000\<rparr>),
                     (''b'', \<lparr>sessionId = ''s2'', timestamp = 4000000\<rparr>),
                     (''c'', \<lparr>sessionId = ''s3'', timestamp = 1000\<rparr>)])
     = (2, \<lparr>sessionCache = [(''b'', \<lparr>sessionId = ''s2'', timestamp = 4000000\<rparr>)],
            requests = [], clockReads = 1, activities = []\<rparr>) \<and>
   (2::nat) = length [(''a'', \<lparr>sessionId = ''s1'', timestamp = 3000000\<rparr>),
                (''b'', \<lparr>sessionId = ''s2'', timestamp = 4000000\<rparr>),
                (''c'', \<lparr>sessionId = ''s3'', timestamp = 1000\<rparr>)]
            - length [(''b'', \<lparr>sessionId = ''s2'', timestamp = 4000000\<rparr>)]"
  (is "Map_ok ?c \<and> cleanup ?e ?w = (2, ?w') \<and> _")
proof -
  have ok: "Map_ok ?c" by (simp add: Map_ok_def)
  then have ok': "Map_ok (sessionCache ?w)" by (simp add: example_world_def)
  have run: "cleanup ?e ?w = (2, ?w')"
    by (simp add: cleanup_def sweep_def Date_now_def Map_delete_def
        example_env_def example_world_def)
  have now: "5000000 = clock ?e (clockReads ?w)"
    by (simp add: example_env_def example_world_def)
  from cleanup_removes_exactly_expired[OF ok' run now]
  have "(2::nat) = length (sessionCache ?w) - length (sessionCache ?w')" by blast
  then have "(2::nat) = length ?c - length [(''b'', \<lparr>sessionId = ''s2'', timestamp = 4000000\<rparr>)]"
    by (simp add: example_world_def)
  with ok run show ?thesis by blast
qed

text \<open>
  C9. An entry whose age is exactly the timeout is expired for the lookup, which issues a
  creation request, and is not yet old enough for the sweep, which at the same instant
  leaves it in the cache.
\<close>

theorem boundary_lookup_expired_sweep_keeps:
  assumes ok: "Map_ok (sessionCache s)"
    and entry: "Map_get (sessionCache s) cid = Some cs"
    and age: "clock e (clockReads s) - timestamp cs = SESSION_TIMEOUT e"
  shows "requests (snd (getOrCreateSession e cid tk s)) = requests s @ [SessionRequest tk cid] \<and>
         Map_get (sessionCache (snd (cleanup e s))) cid = Some cs"
proof -
  have miss: "\<not> (\<exists>cs. Map_get (sessionCache s) cid = Some cs \<and>
                       clock e (clockReads s) - timestamp cs < SESSION_TIMEOUT e)"
    using entry age by auto
  have "requests (snd (getOrCreateSession e cid tk s)) = requests s @ [SessionRequest tk cid]"
  proof (cases "sessionResponse e (calls isSessionRequest s)")
    case (Inl err)
    then show ?thesis by (simp add: getOrCreateSession_miss_fail[OF miss])
  next
    case (Inr sid)
    then show ?thesis by (simp add: getOrCreateSession_miss_ok[OF miss])
  qed
  moreover have "Map_get (sessionCache (snd (cleanup e s))) cid = Some cs"
    using Map_get_filter[OF ok,
        of "\<lambda>v. \<not> clock e (clockReads s) - timestamp v > SESSION_TIMEOUT e" cid] entry age
    by (simp add: cleanup_eq[OF ok])
  ultimately show ?thesis by blast
qed

theorem boundary_lookup_expired_sweep_keeps_witness:
  "Map_ok [(''conv'', \<lparr>sessionId = ''old'', timestamp = 3200000\<rparr>)] \<and>
   clock (example_env (\<lambda>n. Inr ''fresh'') (\<lambda>n. Inr [])) 0 - 3200000
     = SESSION_TIMEOUT (example_env (\<lambda>n. Inr ''fresh'') (\<lambda>n. Inr [])) \<and>
   requests (snd (getOrCreateSession (example_env (\<lambda>n. Inr ''fresh'') (\<lambda>n. Inr []))
       ''conv'' ''token''
       (example_world [(''conv'', \<lparr>sessionId = ''old'', timestamp = 3200000\<rparr>)])))
     = [SessionRequest ''token'' ''conv''] \<and>
   Map_get (sessionCache (snd (cleanup (example_env (\<lambda>n. Inr ''fresh'') (\<lambda>n. Inr []))
       (example_world [(''conv'', \<lparr>sessionId = ''old'', timestamp = 3200000\<rparr>)])))) ''conv''
     = Some \<lparr>sessionId = ''old'', timestamp = 3200000\<rparr>"
  using boundary_lookup_expired_sweep_keeps
    [of "example_world [(''conv'', \<lparr>sessionId = ''old'', timestamp = 3200000\<rparr>)]" "''conv''"
        "\<lparr>sessionId = ''old'', timestamp = 3200000\<rparr>"
        "example_env (\<lambda>n. Inr ''fresh'') (\<lambda>n. Inr [])" "''token''"]
  by (simp add: Map_ok_def Map_get_def example_env_def example_world_def)

section \<open>One turn\<close>

lemma reusable_iff:
  "reusable e cid s = (\<exists>cs. Map_get (sessionCache s) cid = Some cs \<and>
                 clock e (clockReads s) - timestamp cs < SESSION_TIMEOUT e)"
  by (simp add: reusable_def split: option.splits)

lemma sendEinsteinMessage_eq:
  "sendEinsteinMessage e tk sid m s =
     ((case messageResponse e (calls isMessageRequest s) of
         Inr messages \<Rightarrow> (case messages of x # rest \<Rightarrow> Inr x | [] \<Rightarrow> Inl (sendCatch None))
       | Inl err \<Rightarrow> Inl (sendCatch (response err))),
      s\<lparr>requests := requests s @ [MessageRequest tk sid (clock e (clockReads s)) m],
        clockReads := Suc (clockReads s)\<rparr>)"
  by (simp add: sendEinsteinMessage_def Date_now_def split: sum.splits list.splits)

lemma getSalesforceToken_eq:
  "getSalesforceToken e s =
     ((case tokenResponse e (calls isTokenRequest s) of
         Inr t \<Rightarrow> Inr t
       | Inl err \<Rightarrow> Inl (Error ''Failed to get Salesforce token.'')),
      s\<lparr>requests := requests s @ [TokenRequest]\<rparr>)"
  by (simp add: getSalesforceToken_def split: sum.splits)

lemma Map_delete_Map_set: "Map_delete k (Map_set k v c) = Map_delete k c"
  by (induction c) (auto simp: Map_delete_def)

text \<open>The first resolution of a turn, when it succeeds.\<close>

lemma getOrCreateSession_ok:
  assumes "reusable e cid s \<or> (\<exists>sid. sessionResponse e (calls isSessionRequest s) = Inr sid)"
  shows "\<exists>sid c. getOrCreateSession e cid tk s =
     (Inr sid,
      s\<lparr>sessionCache := c,
        requests := requests s @ (if reusable e cid s then [] else [SessionRequest tk cid]),
        clockReads := Suc (clockReads s)\<rparr>) \<and>
     Map_delete cid c = Map_delete cid (sessionCache s)"
proof (cases "reusable e cid s")
  case True
  then obtain cs where "Map_get (sessionCache s) cid = Some cs"
    "clock e (clockReads s) - timestamp cs < SESSION_TIMEOUT e"
    by (auto simp: reusable_iff)
  from getOrCreateSession_hit[OF this, of tk] True show ?thesis
    by (intro exI[of _ "sessionId cs"] exI[of _ "sessionCache s"]) simp
next
  case False
  with assms obtain sid where sid: "sessionResponse e (calls isSessionRequest s) = Inr sid"
    by blast
  from False have "\<not> (\<exists>cs. Map_get (sessionCache s) cid = Some cs \<and>
                 clock e (clockReads s) - timestamp cs < SESSION_TIMEOUT e)"
    by (simp add: reusable_iff)
  from getOrCreateSession_miss_ok[OF this sid, of tk] False show ?thesis
    by (intro exI[of _ sid]
        exI[of _ "Map_set cid \<lparr>sessionId = sid, timestamp = clock e (clockReads s)\<rparr> (sessionCache s)"])
      (simp add: Map_delete_Map_set)
qed

text \<open>The resolution of the retry: the entry was deleted just before, so it creates.\<close>

lemma getOrCreateSession_after_delete:
  assumes "sessionResponse e (calls isSessionRequest s) = Inr sid"
  shows "getOrCreateSession e cid tk (s\<lparr>sessionCache := Map_delete cid (sessionCache s)\<rparr>) =
     (Inr sid,
      s\<lparr>sessionCache :=
           Map_set cid \<lparr>sessionId = sid, timestamp = clock e (clockReads s)\<rparr>
             (Map_delete cid (sessionCache s)),
        requests := requests s @ [SessionRequest tk cid],
        clockReads := Suc (clockReads s)\<rparr>)"
proof -
  let ?s = "s\<lparr>sessionCache := Map_delete cid (sessionCache s)\<rparr>"
  have miss: "\<not> (\<exists>cs. Map_get (sessionCache ?s) cid = Some cs \<and>
                 clock e (clockReads ?s) - timestamp cs < SESSION_TIMEOUT e)"
    by (simp add: Map_get_Map_delete)
  have "sessionResponse e (calls isSessionRequest ?s) = Inr sid"
    using assms by (simp add: calls_def)
  from getOrCreateSession_miss_ok[OF miss this, of tk] show ?thesis by simp
qed

text \<open>
  The turn in which the first dispatch is answered ``session expired'': what the state is
  when the retry's dispatch has been sent, whatever its answer.
\<close>

lemma turnBody_retry:
  assumes tok: "tokenResponse e (calls isTokenRequest s) = Inr tk"
    and first: "reusable e (conversation_id a) s \<or>
                  (\<exists>sid. sessionResponse e (calls isSessionRequest s) = Inr sid)"
    and d1: "messageResponse e (calls isMessageRequest s) = Inl err1"
    and x1: "sendCatch (response err1) = Error ''SESSION_EXPIRED''"
    and again: "sessionResponse e
                  (calls isSessionRequest s + (if reusable e (conversation_id a) s then 0 else 1))
                = Inr sid2"
  shows "\<exists>sid1 t1 t2.
    turnBody e a s =
      (let s5 = s\<lparr>sessionCache :=
                    Map_set (conversation_id a)
                      \<lparr>sessionId = sid2, timestamp = clock e (clockReads s + 2)\<rparr>
                      (Map_delete (conversation_id a) (sessionCache s)),
                  requests := requests s @ TokenRequest #
                    (if reusable e (conversation_id a) s then []
                     else [SessionRequest tk (conversation_id a)]) @
                    [MessageRequest tk sid1 t1 (activity_text a),
                     SessionRequest tk (conversation_id a),
                     MessageRequest tk sid2 t2 (activity_text a)],
                  clockReads := clockReads s + 4\<rparr>
       in case messageResponse e (calls isMessageRequest s + 1) of
            Inr messages \<Rightarrow>
              (case messages of
                 x # rest \<Rightarrow> (None, sendActivity x s5)
               | [] \<Rightarrow> (Some (sendCatch None), s5))
          | Inl err \<Rightarrow> (Some (sendCatch (response err)), s5))"
proof -
  let ?cid = "conversation_id a"
  let ?txt = "activity_text a"
  let ?pre = "if reusable e ?cid s then [] else [SessionRequest tk ?cid]"
  let ?m2 = "MessageRequest tk sid2 (clock e (clockReads s + 3)) ?txt"
  let ?s1 = "s\<lparr>requests := requests s @ [TokenRequest]\<rparr>"
  have t: "getSalesforceToken e s = (Inr tk, ?s1)"
    using tok by (simp add: getSalesforceToken_eq)
  have r1: "reusable e ?cid ?s1 = reusable e ?cid s"
    by (simp add: reusable_iff)
  have c1: "calls isSessionRequest ?s1 = calls isSessionRequest s"
    by (simp add: calls_def)
  from first have "reusable e ?cid ?s1 \<or>
                  (\<exists>sid. sessionResponse e (calls isSessionRequest ?s1) = Inr sid)"
    by (simp add: r1 c1)
  from getOrCreateSession_ok[OF this, of tk] obtain sid1 c where
    g1': "getOrCreateSession e ?cid tk ?s1 =
      (Inr sid1,
       ?s1\<lparr>sessionCache := c,
           requests := requests ?s1 @ (if reusable e ?cid s then [] else [SessionRequest tk ?cid]),
           clockReads := Suc (clockReads ?s1)\<rparr>)"
    and dc: "Map_delete ?cid c = Map_delete ?cid (sessionCache s)"
    unfolding r1 by auto
  let ?m1 = "MessageRequest tk sid1 (clock e (Suc (clockReads s))) ?txt"
  let ?s2 = "s\<lparr>sessionCache := c, requests := requests s @ TokenRequest # ?pre,
               clockReads := Suc (clockReads s)\<rparr>"
  have g1: "getOrCreateSession e ?cid tk ?s1 = (Inr sid1, ?s2)"
    unfolding g1' by simp
  have c2: "calls isMessageRequest ?s2 = calls isMessageRequest s"
    by (simp add: calls_def)
  let ?s3 = "s\<lparr>sessionCache := c, requests := requests s @ TokenRequest # ?pre @ [?m1],
               clockReads := clockReads s + 2\<rparr>"
  have m1: "sendEinsteinMessage e tk sid1 ?txt ?s2 = (Inl (Error ''SESSION_EXPIRED''), ?s3)"
    unfolding sendEinsteinMessage_eq c2 using d1 x1 by simp
  have rs1: "resolveAndSend e ?cid tk ?txt ?s1 = (Some (Error ''SESSION_EXPIRED''), ?s3)"
    unfolding resolveAndSend_def g1 prod.case sum.case m1 by simp
  have c3: "calls isSessionRequest ?s3 =
       calls isSessionRequest s + (if reusable e ?cid s then 0 else 1)"
    by (simp add: calls_def)
  from again have "sessionResponse e (calls isSessionRequest ?s3) = Inr sid2"
    unfolding c3 .
  note g2' = getOrCreateSession_after_delete[OF this, of ?cid tk]
  let ?s4 = "s\<lparr>sessionCache :=
                 Map_set ?cid \<lparr>sessionId = sid2, timestamp = clock e (clockReads s + 2)\<rparr>
                   (Map_delete ?cid (sessionCache s)),
               requests := requests s @ TokenRequest # ?pre @ [?m1, SessionRequest tk ?cid],
               clockReads := clockReads s + 3\<rparr>"
  have g2: "getOrCreateSession e ?cid tk (?s3\<lparr>sessionCache := Map_delete ?cid (sessionCache ?s3)\<rparr>)
              = (Inr sid2, ?s4)"
    unfolding g2' by (simp add: dc)
  have c4: "calls isMessageRequest ?s4 = calls isMessageRequest s + 1"
    by (simp add: calls_def)
  let ?s5 = "s\<lparr>sessionCache :=
                 Map_set ?cid \<lparr>sessionId = sid2, timestamp = clock e (clockReads s + 2)\<rparr>
                   (Map_delete ?cid (sessionCache s)),
               requests := requests s @ TokenRequest # ?pre @ [?m1, SessionRequest tk ?cid, ?m2],
               clockReads := clockReads s + 4\<rparr>"
  have m2: "sendEinsteinMessage e tk sid2 ?txt ?s4 =
     ((case messageResponse e (calls isMessageRequest s + 1) of
         Inr messages \<Rightarrow> (case messages of x # rest \<Rightarrow> Inr x | [] \<Rightarrow> Inl (sendCatch None))
       | Inl err \<Rightarrow> Inl (sendCatch (response err))), ?s5)"
    unfolding sendEinsteinMessage_eq c4 by simp
  have rs2: "resolveAndSend e ?cid tk ?txt (?s3\<lparr>sessionCache := Map_delete ?cid (sessionCache ?s3)\<rparr>) =
             (case messageResponse e (calls isMessageRequest s + 1) of
                Inr messages \<Rightarrow>
                  (case messages of
                     x # rest \<Rightarrow> (None, sendActivity x ?s5)
                   | [] \<Rightarrow> (Some (sendCatch None), ?s5))
              | Inl err \<Rightarrow> (Some (sendCatch (response err)), ?s5))"
    unfolding resolveAndSend_def g2 prod.case sum.case m2
    by (cases "messageResponse e (calls isMessageRequest s + 1)") (simp_all split: list.splits)
  have tb: "turnBody e a s =
             (case messageResponse e (calls isMessageRequest s + 1) of
                Inr messages \<Rightarrow>
                  (case messages of
                     x # rest \<Rightarrow> (None, sendActivity x ?s5)
                   | [] \<Rightarrow> (Some (sendCatch None), ?s5))
              | Inl err \<Rightarrow> (Some (sendCatch (response err)), ?s5))"
    unfolding turnBody_def Let_def t prod.case sum.case rs1 option.case
    by (simp only: isSessionExpired.simps simp_thms if_True rs2)
  show ?thesis
    unfolding tb Let_def
    by (intro exI[of _ sid1] exI[of _ "clock e (Suc (clockReads s))"]
        exI[of _ "clock e (clockReads s + 3)"]) simp
qed

lemma calls_sendActivity: "calls P (sendActivity m s) = calls P s"
  by (simp add: calls_def sendActivity_def)

lemma reusable_sendActivity: "reusable e cid (sendActivity m s) = reusable e cid s"
  by (simp add: reusable_iff sendActivity_def)

text \<open>
  For a message activity the second copy of the handler is the first one run with no
  configured status text.
\<close>

lemma getSalesforceToken_STATUS_MESSAGE:
  "getSalesforceToken (e\<lparr>STATUS_MESSAGE := m\<rparr>) = getSalesforceToken e"
  by (intro ext) (simp add: getSalesforceToken_def cong: sum.case_cong)

lemma getOrCreateSession_STATUS_MESSAGE:
  "getOrCreateSession (e\<lparr>STATUS_MESSAGE := m\<rparr>) = getOrCreateSession e"
  by (intro ext)
    (simp add: getOrCreateSession_def createEinsteinSession_def Date_now_def
      cong: option.case_cong sum.case_cong)

lemma sendEinsteinMessage_STATUS_MESSAGE:
  "sendEinsteinMessage (e\<lparr>STATUS_MESSAGE := m\<rparr>) = sendEinsteinMessage e"
  by (intro ext) (simp add: sendEinsteinMessage_def Date_now_def cong: sum.case_cong)

lemma resolveAndSend_STATUS_MESSAGE:
  "resolveAndSend (e\<lparr>STATUS_MESSAGE := m\<rparr>) = resolveAndSend e"
  unfolding resolveAndSend_def fun_eq_iff getOrCreateSession_STATUS_MESSAGE
    sendEinsteinMessage_STATUS_MESSAGE
  by simp

lemma turnBody_STATUS_MESSAGE: "turnBody (e\<lparr>STATUS_MESSAGE := m\<rparr>) a s = turnBody e a s"
  unfolding turnBody_def getSalesforceToken_STATUS_MESSAGE resolveAndSend_STATUS_MESSAGE
  by (rule refl)

lemma botLogic_part_000_message:
  assumes "activity_type a = ''message''"
  shows "botLogic_part_000 e a s = botLogic (e\<lparr>STATUS_MESSAGE := None\<rparr>) a s"
  using assms
  by (simp add: botLogic_part_000_def botLogic_def statusReply_def turnBody_STATUS_MESSAGE)

text \<open>
  C7. When the token request of a turn fails, the turn issues that one request and nothing
  else (no session creation, no dispatch), leaves the cache as it was, and the caller
  receives the status line followed by the fixed error reply.
\<close>

theorem botLogic_token_failure:
  assumes msg: "activity_type a = ''message''"
    and tok: "tokenResponse e (calls isTokenRequest s) = Inl err"
  shows "requests (botLogic e a s) = requests s @ [TokenRequest] \<and>
         calls isSessionRequest (botLogic e a s) = calls isSessionRequest s \<and>
         calls isMessageRequest (botLogic e a s) = calls isMessageRequest s \<and>
         sessionCache (botLogic e a s) = sessionCache s \<and>
         activities (botLogic e a s) = activities s @ [statusReply e, errorReply]"
proof -
  have "calls isTokenRequest (sendActivity (statusReply e) s) = calls isTokenRequest s"
    by (rule calls_sendActivity)
  with tok have "turnBody e a (sendActivity (statusReply e) s) =
      (Some (Error ''Failed to get Salesforce token.''),
       sendActivity (statusReply e) s
         \<lparr>requests := requests (sendActivity (statusReply e) s) @ [TokenRequest]\<rparr>)"
    by (simp add: turnBody_def getSalesforceToken_eq)
  then show ?thesis
    using msg by (simp add: botLogic_def sendActivity_def calls_def)
qed

theorem botLogic_token_failure_witness:
  "activity_type example_activity = ''message'' \<and>
   tokenResponse (example_env (\<lambda>n. Inr ''fresh'') (\<lambda>n. Inr [''hello''])
                    \<lparr>tokenResponse := \<lambda>n. Inl no_response\<rparr>)
     (calls isTokenRequest (example_world [])) = Inl no_response \<and>
   requests (botLogic (example_env (\<lambda>n. Inr ''fresh'') (\<lambda>n. Inr [''hello''])
                    \<lparr>tokenResponse := \<lambda>n. Inl no_response\<rparr>) example_activity (example_world []))
     = [TokenRequest] \<and>
   activities (botLogic (example_env (\<lambda>n. Inr ''fresh'') (\<lambda>n. Inr [''hello''])
                    \<lparr>tokenResponse := \<lambda>n. Inl no_response\<rparr>) example_activity (example_world []))
     = [hourglass @ '' Processing your request...'', errorReply]"
  (is "?A \<and> ?B \<and> ?C \<and> ?D")
proof -
  have a: ?A by (simp add: example_activity_def)
  have b: ?B by (simp add: example_env_def)
  from botLogic_token_failure[OF a b]
  have "?C \<and> ?D" by (simp add: example_world_def example_env_def statusReply_def)
  with a b show ?thesis by blast
qed


text \<open>
  The whole turn when the first dispatch is answered ``session expired'' and the session
  can be created again: the final state, by the answer to the second dispatch.
\<close>

lemma botLogic_retry:
  assumes msg: "activity_type a = ''message''"
    and tok: "tokenResponse e (calls isTokenRequest s) = Inr tk"
    and first: "reusable e (conversation_id a) s \<or>
                  (\<exists>sid. sessionResponse e (calls isSessionRequest s) = Inr sid)"
    and d1: "messageResponse e (calls isMessageRequest s) = Inl err1"
    and x1: "sendCatch (response err1) = Error ''SESSION_EXPIRED''"
    and again: "sessionResponse e
                  (calls isSessionRequest s + (if reusable e (conversation_id a) s then 0 else 1))
                = Inr sid2"
  shows "\<exists>sid1 t1 t2.
    botLogic e a s =
      s\<lparr>sessionCache :=
          Map_set (conversation_id a)
            \<lparr>sessionId = sid2, timestamp = clock e (clockReads s + 2)\<rparr>
            (Map_delete (conversation_id a) (sessionCache s)),
        requests := requests s @ TokenRequest #
          (if reusable e (conversation_id a) s then []
           else [SessionRequest tk (conversation_id a)]) @
          [MessageRequest tk sid1 t1 (activity_text a),
           SessionRequest tk (conversation_id a),
           MessageRequest tk sid2 t2 (activity_text a)],
        clockReads := clockReads s + 4,
        activities := activities s @
          [statusReply e,
           case messageResponse e (calls isMessageRequest s + 1) of
             Inr messages \<Rightarrow> (case messages of x # rest \<Rightarrow> x | [] \<Rightarrow> errorReply)
           | Inl err \<Rightarrow> errorReply]\<rparr>"
proof -
  let ?s0 = "sendActivity (statusReply e) s"
  have f: "calls isTokenRequest ?s0 = calls isTokenRequest s"
    "calls isSessionRequest ?s0 = calls isSessionRequest s"
    "calls isMessageRequest ?s0 = calls isMessageRequest s"
    "reusable e (conversation_id a) ?s0 = reusable e (conversation_id a) s"
    by (simp_all add: calls_sendActivity reusable_sendActivity)
  have g: "sessionCache ?s0 = sessionCache s" "requests ?s0 = requests s"
    "clockReads ?s0 = clockReads s"
    by (simp_all add: sendActivity_def)
  from turnBody_retry[of e ?s0 tk a err1 sid2, unfolded f g, OF tok first d1 x1 again]
  obtain sid1 t1 t2 where
    tb: "turnBody e a ?s0 =
      (let s5 = ?s0\<lparr>sessionCache :=
                    Map_set (conversation_id a)
                      \<lparr>sessionId = sid2, timestamp = clock e (clockReads s + 2)\<rparr>
                      (Map_delete (conversation_id a) (sessionCache s)),
                  requests := requests s @ TokenRequest #
                    (if reusable e (conversation_id a) s then []
                     else [SessionRequest tk (conversation_id a)]) @
                    [MessageRequest tk sid1 t1 (activity_text a),
                     SessionRequest tk (conversation_id a),
                     MessageRequest tk sid2 t2 (activity_text a)],
                  clockReads := clockReads s + 4\<rparr>
       in case messageResponse e (calls isMessageRequest s + 1) of
            Inr messages \<Rightarrow>
              (case messages of
                 x # rest \<Rightarrow> (None, sendActivity x s5)
               | [] \<Rightarrow> (Some (sendCatch None), s5))
          | Inl err \<Rightarrow> (Some (sendCatch (response err)), s5))"
    by blast
  show ?thesis
    apply (rule exI[of _ sid1])
    apply (rule exI[of _ t1])
    apply (rule exI[of _ t2])
    unfolding botLogic_def tb Let_def using msg
    apply (cases "messageResponse e (calls isMessageRequest s + 1)")
     apply (simp_all add: sendActivity_def split: list.splits)
    done
qed

text \<open>
  C1. When the first dispatch of a turn is answered ``session expired'' and the dispatch
  of the retry is answered ``session expired'' too, the turn consists of the token request,
  the first resolution, the first dispatch, one re-creation of the session and the second
  dispatch, and nothing after it: two dispatches in all, and the caller receives the fixed
  error reply.
\<close>

theorem botLogic_second_expiry_is_terminal:
  assumes msg: "activity_type a = ''message''"
    and tok: "tokenResponse e (calls isTokenRequest s) = Inr tk"
    and first: "reusable e (conversation_id a) s \<or>
                  (\<exists>sid. sessionResponse e (calls isSessionRequest s) = Inr sid)"
    and d1: "messageResponse e (calls isMessageRequest s) = Inl err1"
    and x1: "sendCatch (response err1) = Error ''SESSION_EXPIRED''"
    and again: "sessionResponse e
                  (calls isSessionRequest s + (if reusable e (conversation_id a) s then 0 else 1))
                = Inr sid2"
    and d2: "messageResponse e (calls isMessageRequest s + 1) = Inl err2"
    and x2: "sendCatch (response err2) = Error ''SESSION_EXPIRED''"
  shows "(\<exists>sid1 t1 t2.
            requests (botLogic e a s) =
              requests s @ TokenRequest #
                (if reusable e (conversation_id a) s then []
                 else [SessionRequest tk (conversation_id a)]) @
                [MessageRequest tk sid1 t1 (activity_text a),
                 SessionRequest tk (conversation_id a),
                 MessageRequest tk sid2 t2 (activity_text a)]) \<and>
         calls isMessageRequest (botLogic e a s) = calls isMessageRequest s + 2 \<and>
         calls isSessionRequest (botLogic e a s) =
           calls isSessionRequest s + (if reusable e (conversation_id a) s then 1 else 2) \<and>
         activities (botLogic e a s) = activities s @ [statusReply e, errorReply]"
proof -
  from botLogic_retry[OF msg tok first d1 x1 again] obtain sid1 t1 t2 where
    b: "botLogic e a s =
      s\<lparr>sessionCache :=
          Map_set (conversation_id a)
            \<lparr>sessionId = sid2, timestamp = clock e (clockReads s + 2)\<rparr>
            (Map_delete (conversation_id a) (sessionCache s)),
        requests := requests s @ TokenRequest #
          (if reusable e (conversation_id a) s then []
           else [SessionRequest tk (conversation_id a)]) @
          [MessageRequest tk sid1 t1 (activity_text a),
           SessionRequest tk (conversation_id a),
           MessageRequest tk sid2 t2 (activity_text a)],
        clockReads := clockReads s + 4,
        activities := activities s @
          [statusReply e,
           case messageResponse e (calls isMessageRequest s + 1) of
             Inr messages \<Rightarrow> (case messages of x # rest \<Rightarrow> x | [] \<Rightarrow> errorReply)
           | Inl err \<Rightarrow> errorReply]\<rparr>"
    by blast
  have 1: "\<exists>sid1 t1 t2.
            requests (botLogic e a s) =
              requests s @ TokenRequest #
                (if reusable e (conversation_id a) s then []
                 else [SessionRequest tk (conversation_id a)]) @
                [MessageRequest tk sid1 t1 (activity_text a),
                 SessionRequest tk (conversation_id a),
                 MessageRequest tk sid2 t2 (activity_text a)]"
    unfolding b by (intro exI[of _ sid1] exI[of _ t1] exI[of _ t2]) simp
  have 2: "calls isMessageRequest (botLogic e a s) = calls isMessageRequest s + 2"
    unfolding b by (simp add: calls_def)
  have 3: "calls isSessionRequest (botLogic e a s) =
           calls isSessionRequest s + (if reusable e (conversation_id a) s then 1 else 2)"
    unfolding b by (simp add: calls_def)
  have 4: "activities (botLogic e a s) = activities s @ [statusReply e, errorReply]"
    unfolding b using d2 by simp
  from 1 2 3 4 show ?thesis by blast
qed

theorem botLogic_second_expiry_is_terminal_witness:
  "activity_type example_activity = ''message'' \<and>
   reusable (example_env (\<lambda>n. Inr ''fresh'') always_404) ''conv'' cached_world \<and>
   messageResponse (example_env (\<lambda>n. Inr ''fresh'') always_404) 0
     = Inl (http_failure 404 (JStr ''Not Found'')) \<and>
   messageResponse (example_env (\<lambda>n. Inr ''fresh'') always_404) 1
     = Inl (http_failure 404 (JStr ''Not Found'')) \<and>
   sendCatch (response (http_failure 404 (JStr ''Not Found''))) = Error ''SESSION_EXPIRED'' \<and>
   calls isMessageRequest
     (botLogic (example_env (\<lambda>n. Inr ''fresh'') always_404) example_activity cached_world) = 2 \<and>
   calls isSessionRequest
     (botLogic (example_env (\<lambda>n. Inr ''fresh'') always_404) example_activity cached_world) = 1 \<and>
   activities
     (botLogic (example_env (\<lambda>n. Inr ''fresh'') always_404) example_activity cached_world)
     = [statusReply (example_env (\<lambda>n. Inr ''fresh'') always_404), errorReply]"
  (is "?A \<and> ?R \<and> ?D1 \<and> ?D2 \<and> ?X \<and> ?M \<and> ?S \<and> ?T")
proof -
  let ?e = "example_env (\<lambda>n. Inr ''fresh'') always_404"
  have a: ?A by (simp add: example_activity_def)
  have c: "conversation_id example_activity = ''conv''" by (simp add: example_activity_def)
  have r: ?R
    by (simp add: reusable_def cached_world_def example_world_def example_env_def Map_get_def)
  have n: "calls isTokenRequest cached_world = 0" "calls isSessionRequest cached_world = 0"
    "calls isMessageRequest cached_world = 0" "activities cached_world = []"
    by (simp_all add: calls_def cached_world_def example_world_def)
  have tok: "tokenResponse ?e (calls isTokenRequest cached_world) = Inr ''token''"
    by (simp add: example_env_def)
  have first: "reusable ?e (conversation_id example_activity) cached_world \<or>
                 (\<exists>sid. sessionResponse ?e (calls isSessionRequest cached_world) = Inr sid)"
    using r c by simp
  have d1: "messageResponse ?e (calls isMessageRequest cached_world)
              = Inl (http_failure 404 (JStr ''Not Found''))"
    by (simp add: example_env_def always_404_def)
  have d2: "messageResponse ?e (calls isMessageRequest cached_world + 1)
              = Inl (http_failure 404 (JStr ''Not Found''))"
    by (simp add: example_env_def always_404_def)
  have x: ?X by (simp add: sendCatch_def http_failure_def)
  have again: "sessionResponse ?e
      (calls isSessionRequest cached_world +
         (if reusable ?e (conversation_id example_activity) cached_world then 0 else 1))
      = Inr ''fresh''"
    by (simp add: example_env_def)
  from botLogic_second_expiry_is_terminal[OF a tok first d1 x again d2 x]
  have "?M \<and> ?S \<and> ?T"
    using r by (simp add: n c)
  moreover have ?D1 ?D2 by (simp_all add: example_env_def always_404_def)
  ultimately show ?thesis using a r x by blast
qed

text \<open>
  C2, as the code has it. When the first dispatch of a turn is answered ``session
  expired'' and the second dispatch succeeds, the turn deletes the conversation's entry and
  stores the newly created session in its place, issues exactly one creation request after
  the failed dispatch and exactly two dispatches, and delivers the second answer's first
  message to the caller. The creation requests of the whole turn are one when the first
  resolution reused a cached session, and two when the first resolution had to create a
  session itself.
\<close>

theorem botLogic_retry_delivers_second_reply:
  assumes msg: "activity_type a = ''message''"
    and tok: "tokenResponse e (calls isTokenRequest s) = Inr tk"
    and first: "reusable e (conversation_id a) s \<or>
                  (\<exists>sid. sessionResponse e (calls isSessionRequest s) = Inr sid)"
    and d1: "messageResponse e (calls isMessageRequest s) = Inl err1"
    and x1: "sendCatch (response err1) = Error ''SESSION_EXPIRED''"
    and again: "sessionResponse e
                  (calls isSessionRequest s + (if reusable e (conversation_id a) s then 0 else 1))
                = Inr sid2"
    and d2: "messageResponse e (calls isMessageRequest s + 1) = Inr (reply # others)"
  shows "(\<exists>sid1 t1 t2.
            requests (botLogic e a s) =
              requests s @ TokenRequest #
                (if reusable e (conversation_id a) s then []
                 else [SessionRequest tk (conversation_id a)]) @
                [MessageRequest tk sid1 t1 (activity_text a),
                 SessionRequest tk (conversation_id a),
                 MessageRequest tk sid2 t2 (activity_text a)]) \<and>
         sessionCache (botLogic e a s) =
           Map_set (conversation_id a)
             \<lparr>sessionId = sid2, timestamp = clock e (clockReads s + 2)\<rparr>
             (Map_delete (conversation_id a) (sessionCache s)) \<and>
         calls isSessionRequest (botLogic e a s) =
           calls isSessionRequest s + (if reusable e (conversation_id a) s then 1 else 2) \<and>
         calls isMessageRequest (botLogic e a s) = calls isMessageRequest s + 2 \<and>
         activities (botLogic e a s) = activities s @ [statusReply e, reply]"
proof -
  from botLogic_retry[OF msg tok first d1 x1 again] obtain sid1 t1 t2 where
    b: "botLogic e a s =
      s\<lparr>sessionCache :=
          Map_set (conversation_id a)
            \<lparr>sessionId = sid2, timestamp = clock e (clockReads s + 2)\<rparr>
            (Map_delete (conversation_id a) (sessionCache s)),
        requests := requests s @ TokenRequest #
          (if reusable e (conversation_id a) s then []
           else [SessionRequest tk (conversation_id a)]) @
          [MessageRequest tk sid1 t1 (activity_text a),
           SessionRequest tk (conversation_id a),
           MessageRequest tk sid2 t2 (activity_text a)],
        clockReads := clockReads s + 4,
        activities := activities s @
          [statusReply e,
           case messageResponse e (calls isMessageRequest s + 1) of
             Inr messages \<Rightarrow> (case messages of x # rest \<Rightarrow> x | [] \<Rightarrow> errorReply)
           | Inl err \<Rightarrow> errorReply]\<rparr>"
    by blast
  have 1: "\<exists>sid1 t1 t2.
            requests (botLogic e a s) =
              requests s @ TokenRequest #
                (if reusable e (conversation_id a) s then []
                 else [SessionRequest tk (conversation_id a)]) @
                [MessageRequest tk sid1 t1 (activity_text a),
                 SessionRequest tk (conversation_id a),
                 MessageRequest tk sid2 t2 (activity_text a)]"
    unfolding b by (intro exI[of _ sid1] exI[of _ t1] exI[of _ t2]) simp
  have 2: "sessionCache (botLogic e a s) =
           Map_set (conversation_id a)
             \<lparr>sessionId = sid2, timestamp = clock e (clockReads s + 2)\<rparr>
             (Map_delete (conversation_id a) (sessionCache s))"
    unfolding b by simp
  have 3: "calls isSessionRequest (botLogic e a s) =
           calls isSessionRequest s + (if reusable e (conversation_id a) s then 1 else 2)"
    unfolding b by (simp add: calls_def)
  have 4: "calls isMessageRequest (botLogic e a s) = calls isMessageRequest s + 2"
    unfolding b by (simp add: calls_def)
  have 5: "activities (botLogic e a s) = activities s @ [statusReply e, reply]"
    unfolding b using d2 by simp
  from 1 2 3 4 5 show ?thesis by blast
qed

theorem botLogic_retry_delivers_second_reply_witness:
  "activity_type example_activity = ''message'' \<and>
   reusable (example_env (\<lambda>n. Inr ''fresh'') once_404) ''conv'' cached_world \<and>
   messageResponse (example_env (\<lambda>n. Inr ''fresh'') once_404) 0
     = Inl (http_failure 404 (JStr ''Not Found'')) \<and>
   messageResponse (example_env (\<lambda>n. Inr ''fresh'') once_404) 1 = Inr [''hello''] \<and>
   sendCatch (response (http_failure 404 (JStr ''Not Found''))) = Error ''SESSION_EXPIRED'' \<and>
   sessionCache
     (botLogic (example_env (\<lambda>n. Inr ''fresh'') once_404) example_activity cached_world)
     = [(''conv'', \<lparr>sessionId = ''fresh'', timestamp = 5000002\<rparr>)] \<and>
   calls isSessionRequest
     (botLogic (example_env (\<lambda>n. Inr ''fresh'') once_404) example_activity cached_world) = 1 \<and>
   calls isMessageRequest
     (botLogic (example_env (\<lambda>n. Inr ''fresh'') once_404) example_activity cached_world) = 2 \<and>
   activities
     (botLogic (example_env (\<lambda>n. Inr ''fresh'') once_404) example_activity cached_world)
     = [statusReply (example_env (\<lambda>n. Inr ''fresh'') once_404), ''hello'']"
  (is "?A \<and> ?R \<and> ?D1 \<and> ?D2 \<and> ?X \<and> ?C \<and> ?S \<and> ?M \<and> ?T")
proof -
  let ?e = "example_env (\<lambda>n. Inr ''fresh'') once_404"
  have a: ?A by (simp add: example_activity_def)
  have c: "conversation_id example_activity = ''conv''" by (simp add: example_activity_def)
  have r: ?R
    by (simp add: reusable_def cached_world_def example_world_def example_env_def Map_get_def)
  have n: "calls isTokenRequest cached_world = 0" "calls isSessionRequest cached_world = 0"
    "calls isMessageRequest cached_world = 0" "activities cached_world = []"
    "clockReads cached_world = 0"
    "sessionCache cached_world = [(''conv'', \<lparr>sessionId = ''old'', timestamp = 4000000\<rparr>)]"
    by (simp_all add: calls_def cached_world_def example_world_def)
  have k: "clock ?e (Suc (Suc 0)) = 5000002" by (simp add: example_env_def)
  have tok: "tokenResponse ?e (calls isTokenRequest cached_world) = Inr ''token''"
    by (simp add: example_env_def)
  have first: "reusable ?e (conversation_id example_activity) cached_world \<or>
                 (\<exists>sid. sessionResponse ?e (calls isSessionRequest cached_world) = Inr sid)"
    using r c by simp
  have d1: "messageResponse ?e (calls isMessageRequest cached_world)
              = Inl (http_failure 404 (JStr ''Not Found''))"
    by (simp add: example_env_def once_404_def n)
  have d2: "messageResponse ?e (calls isMessageRequest cached_world + 1) = Inr [''hello'']"
    by (simp add: example_env_def once_404_def n)
  have x: ?X by (simp add: sendCatch_def http_failure_def)
  have again: "sessionResponse ?e
      (calls isSessionRequest cached_world +
         (if reusable ?e (conversation_id example_activity) cached_world then 0 else 1))
      = Inr ''fresh''"
    by (simp add: example_env_def)
  from botLogic_retry_delivers_second_reply[OF a tok first d1 x again d2]
  have "?C \<and> ?S \<and> ?M \<and> ?T"
    using r by (simp add: n c k Map_delete_def)
  moreover have ?D1 ?D2 by (simp_all add: example_env_def once_404_def)
  ultimately show ?thesis using a r x by blast
qed

text \<open>Evaluating a whole turn on a concrete environment.\<close>

lemmas run_defs =
  botLogic_def turnBody_def resolveAndSend_def getSalesforceToken_def getOrCreateSession_def
  createEinsteinSession_def sendEinsteinMessage_def sendCatch_def Date_now_def sendActivity_def
  calls_def Map_get_def Map_delete_def example_env_def example_world_def example_activity_def
  http_failure_def no_response_def Let_def

text \<open>
  The count of creation requests claimed for every such turn (C2: exactly one) fails when the
  first resolution finds no cached session: on an empty cache, with the first dispatch
  answered 404 and the second answered, the turn creates a session twice.
\<close>

theorem botLogic_two_creations_counterexample:
  "messageResponse (example_env (\<lambda>n. Inr ''fresh'') once_404) 0
     = Inl (http_failure 404 (JStr ''Not Found'')) \<and>
   sendCatch (response (http_failure 404 (JStr ''Not Found''))) = Error ''SESSION_EXPIRED'' \<and>
   messageResponse (example_env (\<lambda>n. Inr ''fresh'') once_404) 1 = Inr [''hello''] \<and>
   activities (botLogic (example_env (\<lambda>n. Inr ''fresh'') once_404) example_activity
                 (example_world []))
     = [statusReply (example_env (\<lambda>n. Inr ''fresh'') once_404), ''hello''] \<and>
   calls isMessageRequest (botLogic (example_env (\<lambda>n. Inr ''fresh'') once_404) example_activity
                 (example_world [])) = 2 \<and>
   calls isSessionRequest (example_world []) = 0 \<and>
   calls isSessionRequest (botLogic (example_env (\<lambda>n. Inr ''fresh'') once_404) example_activity
                 (example_world [])) = 2"
  by (simp add: run_defs once_404_def)

section \<open>Classification of dispatch failures\<close>

lemma sendCatch_no_response:
  "sendCatch None = Error ''Failed to send message to Einstein AI.''"
  by (simp add: sendCatch_def)

lemma sendCatch_404:
  "status r = 404 \<Longrightarrow> sendCatch (Some r) = Error ''SESSION_EXPIRED''"
  by (simp add: sendCatch_def)

text \<open>A body that is text, or that is absent, is classified as the two-way rule says.\<close>

lemma sendCatch_text:
  assumes "data r = JStr body"
  shows "sendCatch (Some r) =
     (if status r = 404 \<or> str_includes body ''session not found''
      then Error ''SESSION_EXPIRED''
      else Error ''Failed to send message to Einstein AI.'')"
proof (cases "body = []")
  case True
  with assms show ?thesis by (simp add: sendCatch_def)
next
  case False
  with assms show ?thesis
    by (simp add: sendCatch_def del: str_includes.simps split: bool.splits)
qed

lemma sendCatch_absent_body:
  "data r = JUndefined \<or> data r = JNull \<Longrightarrow>
   sendCatch (Some r) =
     (if status r = 404 then Error ''SESSION_EXPIRED''
      else Error ''Failed to send message to Einstein AI.'')"
  by (auto simp: sendCatch_def)

text \<open>A parsed JSON object with any status but 404 makes the \<^verbatim>\<open>catch\<close> block itself throw.\<close>

lemma sendCatch_object:
  "status r \<noteq> 404 \<Longrightarrow> data r = JObj kvs \<Longrightarrow> sendCatch (Some r) = TypeError"
  by (simp add: sendCatch_def)

lemma str_includes_example:
  "str_includes ''Error: session not found (id 42)'' ''session not found''"
  by simp

text \<open>
  C5. The dispatch is answered with status 500 and a JSON object as body, which is neither a
  404 nor a body containing \<^verbatim>\<open>session not found\<close>: the dispatcher throws neither
  \<^verbatim>\<open>SESSION_EXPIRED\<close> nor \<^verbatim>\<open>Failed to send message to Einstein AI.\<close> but a \<^verbatim>\<open>TypeError\<close>, and it
  does the same when the object is the backend's way of reporting a missing session.
\<close>

theorem sendEinsteinMessage_object_body_TypeError:
  "fst (sendEinsteinMessage
          (example_env (\<lambda>n. Inr ''fresh'')
             (\<lambda>n. Inl (http_failure 500 (JObj [(''message'', JStr ''Internal Server Error'')]))))
          ''token'' ''old'' ''hi'' cached_world)
     = Inl TypeError \<and>
   fst (sendEinsteinMessage
          (example_env (\<lambda>n. Inr ''fresh'')
             (\<lambda>n. Inl (http_failure 400 (JObj [(''message'', JStr ''session not found'')]))))
          ''token'' ''old'' ''hi'' cached_world)
     = Inl TypeError"
  by (simp add: sendEinsteinMessage_def sendCatch_def Date_now_def example_env_def
      http_failure_def)

section \<open>Streaming\<close>

lemma relay_Ended: "relay chunks Ended = map (\<lambda>c. Write (DataEvent c)) chunks @ [Write DoneEvent, End]"
  by (induction chunks) simp_all

lemma relay_Broken: "relay chunks Broken = map (\<lambda>c. Write (DataEvent c)) chunks"
  by (induction chunks) simp_all

lemma getOrCreateSession_other_keys:
  assumes "k \<noteq> cid"
  shows "Map_get (sessionCache (snd (getOrCreateSession e cid tk s))) k = Map_get (sessionCache s) k"
proof (cases "\<exists>cs. Map_get (sessionCache s) cid = Some cs \<and>
               clock e (clockReads s) - timestamp cs < SESSION_TIMEOUT e")
  case True
  then obtain cs where cs: "Map_get (sessionCache s) cid = Some cs"
    "clock e (clockReads s) - timestamp cs < SESSION_TIMEOUT e" by blast
  show ?thesis by (simp add: getOrCreateSession_hit[OF cs])
next
  case False
  show ?thesis
  proof (cases "sessionResponse e (calls isSessionRequest s)")
    case (Inl err)
    then show ?thesis by (simp add: getOrCreateSession_miss_fail[OF False])
  next
    case (Inr sid)
    then show ?thesis using assms
      by (simp add: getOrCreateSession_miss_ok[OF False] Map_get_Map_set)
  qed
qed

lemma resolveWithFallback_other_keys:
  assumes "k \<noteq> cid"
  shows "Map_get (sessionCache (snd (resolveWithFallback e cid tk s))) k = Map_get (sessionCache s) k"
proof (cases "getOrCreateSession e cid tk s")
  case (Pair r s1)
  have s1: "Map_get (sessionCache s1) k = Map_get (sessionCache s) k"
    using getOrCreateSession_other_keys[OF assms, of e tk s] Pair by simp
  show ?thesis
  proof (cases r)
    case (Inr sid)
    with Pair s1 show ?thesis by (simp add: resolveWithFallback_def)
  next
    case (Inl thrown)
    with Pair have "resolveWithFallback e cid tk s =
        getOrCreateSession e cid tk (s1\<lparr>sessionCache := Map_delete cid (sessionCache s1)\<rparr>)"
      by (simp add: resolveWithFallback_def)
    then show ?thesis
      using getOrCreateSession_other_keys[OF assms, of e tk
          "s1\<lparr>sessionCache := Map_delete cid (sessionCache s1)\<rparr>"] s1 assms
      by (simp add: Map_get_Map_delete)
  qed
qed

lemma streamHandler_cache:
  "sessionCache (snd (streamHandler e q s)) =
     (case getSalesforceToken e s of
        (Inl thrown, s1) \<Rightarrow> sessionCache s
      | (Inr tk, s1) \<Rightarrow> sessionCache (snd (resolveWithFallback e (streamKey q) tk s1)))"
  by (simp add: streamHandler_def getSalesforceToken_eq Date_now_def Let_def
      split: sum.splits prod.splits)

lemma streamHandler_other_keys:
  assumes "k \<noteq> streamKey q"
  shows "Map_get (sessionCache (snd (streamHandler e q s))) k = Map_get (sessionCache s) k"
  unfolding streamHandler_cache getSalesforceToken_eq
  using resolveWithFallback_other_keys[OF assms]
  by (simp split: sum.splits)

text \<open>The handler when the token and the session are there: what it sends and writes.\<close>

lemma streamHandler_resolved:
  assumes tok: "tokenResponse e (calls isTokenRequest s) = Inr tk"
    and res: "reusable e (streamKey q) s \<or>
                (\<exists>sid. sessionResponse e (calls isSessionRequest s) = Inr sid)"
  shows "\<exists>sid c.
     (if reusable e (streamKey q) s
      then (\<exists>cs. Map_get (sessionCache s) (streamKey q) = Some cs \<and> sid = sessionId cs) \<and>
           c = sessionCache s
      else sessionResponse e (calls isSessionRequest s) = Inr sid \<and>
           c = Map_set (streamKey q) \<lparr>sessionId = sid, timestamp = clock e (clockReads s)\<rparr>
                 (sessionCache s)) \<and>
     streamHandler e q s =
       ((case streamResponse e (calls isStreamRequest s) of
           Inl err \<Rightarrow> [Write (ErrorEvent (Rejected err)), End]
         | Inr (chunks, fin) \<Rightarrow> relay chunks fin),
        s\<lparr>sessionCache := c,
          requests := requests s @ TokenRequest #
            (if reusable e (streamKey q) s then [] else [SessionRequest tk (streamKey q)]) @
            [StreamRequest tk sid (clock e (Suc (clockReads s))) (query_message q)],
          clockReads := clockReads s + 2\<rparr>)"
proof -
  let ?cid = "streamKey q"
  let ?s1 = "s\<lparr>requests := requests s @ [TokenRequest]\<rparr>"
  have t: "getSalesforceToken e s = (Inr tk, ?s1)"
    using tok by (simp add: getSalesforceToken_eq)
  have r1: "reusable e ?cid ?s1 = reusable e ?cid s"
    by (simp add: reusable_iff)
  have c1: "calls isSessionRequest ?s1 = calls isSessionRequest s"
    "calls isStreamRequest ?s1 = calls isStreamRequest s"
    by (simp_all add: calls_def)
  show ?thesis
  proof (cases "reusable e ?cid s")
    case True
    then obtain cs where cs: "Map_get (sessionCache ?s1) ?cid = Some cs"
      "clock e (clockReads ?s1) - timestamp cs < SESSION_TIMEOUT e"
      by (auto simp: reusable_iff)
    have rw: "resolveWithFallback e ?cid tk ?s1 =
                (Inr (sessionId cs), ?s1\<lparr>clockReads := Suc (clockReads ?s1)\<rparr>)"
      by (simp add: resolveWithFallback_def getOrCreateSession_hit[OF cs])
    show ?thesis
      apply (rule exI[of _ "sessionId cs"])
      apply (rule exI[of _ "sessionCache s"])
      unfolding streamHandler_def Let_def t prod.case sum.case rw
      using True cs(1)
      apply (simp add: Date_now_def calls_def split: sum.splits prod.splits)
      done
  next
    case False
    with res obtain sid where sid: "sessionResponse e (calls isSessionRequest ?s1) = Inr sid"
      by (auto simp: c1)
    from False have miss: "\<not> (\<exists>cs. Map_get (sessionCache ?s1) ?cid = Some cs \<and>
                 clock e (clockReads ?s1) - timestamp cs < SESSION_TIMEOUT e)"
      by (simp add: reusable_iff)
    have rw: "resolveWithFallback e ?cid tk ?s1 =
      (Inr sid,
       ?s1\<lparr>sessionCache :=
             Map_set ?cid \<lparr>sessionId = sid, timestamp = clock e (clockReads ?s1)\<rparr>
               (sessionCache ?s1),
           requests := requests ?s1 @ [SessionRequest tk ?cid],
           clockReads := Suc (clockReads ?s1)\<rparr>)"
      by (simp add: resolveWithFallback_def getOrCreateSession_miss_ok[OF miss sid])
    show ?thesis
      apply (rule exI[of _ sid])
      apply (rule exI[of _ "Map_set ?cid \<lparr>sessionId = sid, timestamp = clock e (clockReads s)\<rparr>
               (sessionCache s)"])
      unfolding streamHandler_def Let_def t prod.case sum.case rw
      using False sid
      apply (simp add: Date_now_def calls_def split: sum.splits prod.splits)
      done
  qed
qed


text \<open>
  A stream that ends: one data event per chunk, in the order of arrival, then the final
  event, then the end of the response.
\<close>

lemma streamHandler_ended:
  assumes tok: "tokenResponse e (calls isTokenRequest s) = Inr tk"
    and res: "reusable e (streamKey q) s \<or>
                (\<exists>sid. sessionResponse e (calls isSessionRequest s) = Inr sid)"
    and str: "streamResponse e (calls isStreamRequest s) = Inr (chunks, Ended)"
  shows "fst (streamHandler e q s) =
           map (\<lambda>c. Write (DataEvent c)) chunks @ [Write DoneEvent, End]"
  using streamHandler_resolved[OF tok res] str by (auto simp: relay_Ended)

text \<open>A request that the backend rejects before any chunk: the error event, then the end.\<close>

lemma streamHandler_rejected:
  assumes tok: "tokenResponse e (calls isTokenRequest s) = Inr tk"
    and res: "reusable e (streamKey q) s \<or>
                (\<exists>sid. sessionResponse e (calls isSessionRequest s) = Inr sid)"
    and str: "streamResponse e (calls isStreamRequest s) = Inl err"
  shows "fst (streamHandler e q s) = [Write (ErrorEvent (Rejected err)), End]"
  using streamHandler_resolved[OF tok res] str by auto

text \<open>
  A stream that breaks after it has started: the data events of the chunks received and
  nothing else, neither an error event nor the end of the response.
\<close>

lemma streamHandler_broken:
  assumes tok: "tokenResponse e (calls isTokenRequest s) = Inr tk"
    and res: "reusable e (streamKey q) s \<or>
                (\<exists>sid. sessionResponse e (calls isSessionRequest s) = Inr sid)"
    and str: "streamResponse e (calls isStreamRequest s) = Inr (chunks, Broken)"
  shows "fst (streamHandler e q s) = map (\<lambda>c. Write (DataEvent c)) chunks"
  using streamHandler_resolved[OF tok res] str by (auto simp: relay_Broken)

lemmas stream_defs =
  streamHandler_def streamKey_def resolveWithFallback_def getSalesforceToken_def
  getOrCreateSession_def createEinsteinSession_def Date_now_def calls_def Map_get_def
  Map_delete_def stream_env_def example_env_def example_world_def cached_world_def Let_def

text \<open>
  C8. The backend stream delivers two chunks and then breaks. The handler writes the two
  data events and nothing more: no error event is written and the response is not ended.
  (The same stream ending normally gives the two data events, the final event and the end.)
\<close>

theorem streamHandler_broken_stream_no_error_event:
  "fst (streamHandler (stream_env ([''Hel'', ''lo''], Broken))
          \<lparr>query_conversationId = Some ''conv'', query_message = Some ''hi''\<rparr> cached_world)
     = [Write (DataEvent ''Hel''), Write (DataEvent ''lo'')] \<and>
   fst (streamHandler (stream_env ([''Hel'', ''lo''], Ended))
          \<lparr>query_conversationId = Some ''conv'', query_message = Some ''hi''\<rparr> cached_world)
     = [Write (DataEvent ''Hel''), Write (DataEvent ''lo''), Write DoneEvent, End]"
  by (simp add: stream_defs)

text \<open>
  C10. A streaming request without \<^verbatim>\<open>conversationId\<close> is handled exactly as one for the
  conversation \<^verbatim>\<open>default-conversation\<close>. It changes no other entry of the cache. When that
  entry is live the request streams on the session cached there, creating none; when it is
  not, and the creation succeeds, the new session is stored under that key, where the next
  such request finds it.
\<close>

theorem streamHandler_omitted_conversationId:
  assumes none: "query_conversationId q = None"
  shows "streamHandler e q s =
           streamHandler e (q\<lparr>query_conversationId := Some ''default-conversation''\<rparr>) s \<and>
         (\<forall>k. k \<noteq> ''default-conversation'' \<longrightarrow>
              Map_get (sessionCache (snd (streamHandler e q s))) k = Map_get (sessionCache s) k) \<and>
         (\<forall>tk. tokenResponse e (calls isTokenRequest s) = Inr tk \<and>
               reusable e ''default-conversation'' s \<longrightarrow>
              (\<exists>cs. Map_get (sessionCache s) ''default-conversation'' = Some cs \<and>
                 requests (snd (streamHandler e q s)) =
                   requests s @
                     [TokenRequest,
                      StreamRequest tk (sessionId cs) (clock e (Suc (clockReads s)))
                        (query_message q)]) \<and>
              sessionCache (snd (streamHandler e q s)) = sessionCache s) \<and>
         (\<forall>tk sid. tokenResponse e (calls isTokenRequest s) = Inr tk \<and>
               \<not> reusable e ''default-conversation'' s \<and>
               sessionResponse e (calls isSessionRequest s) = Inr sid \<longrightarrow>
              requests (snd (streamHandler e q s)) =
                requests s @
                  [TokenRequest, SessionRequest tk ''default-conversation'',
                   StreamRequest tk sid (clock e (Suc (clockReads s))) (query_message q)] \<and>
              Map_get (sessionCache (snd (streamHandler e q s))) ''default-conversation'' =
                Some \<lparr>sessionId = sid, timestamp = clock e (clockReads s)\<rparr>)"
proof -
  have key: "streamKey q = ''default-conversation''"
    using none by (simp add: streamKey_def)
  have same: "streamKey (q\<lparr>query_conversationId := Some ''default-conversation''\<rparr>) = streamKey q"
    "query_message (q\<lparr>query_conversationId := Some ''default-conversation''\<rparr>) = query_message q"
    using none by (simp_all add: streamKey_def)
  have 1: "streamHandler e q s =
           streamHandler e (q\<lparr>query_conversationId := Some ''default-conversation''\<rparr>) s"
    unfolding streamHandler_def same by (rule refl)
  have 2: "Map_get (sessionCache (snd (streamHandler e q s))) k = Map_get (sessionCache s) k"
    if "k \<noteq> ''default-conversation''" for k
    using streamHandler_other_keys[of k q e s] that key by simp
  have 3: "(\<exists>cs. Map_get (sessionCache s) ''default-conversation'' = Some cs \<and>
                 requests (snd (streamHandler e q s)) =
                   requests s @
                     [TokenRequest,
                      StreamRequest tk (sessionId cs) (clock e (Suc (clockReads s)))
                        (query_message q)]) \<and>
              sessionCache (snd (streamHandler e q s)) = sessionCache s"
    if "tokenResponse e (calls isTokenRequest s) = Inr tk"
      and "reusable e ''default-conversation'' s" for tk
    using streamHandler_resolved[of e s tk q] that key by auto
  have 4: "requests (snd (streamHandler e q s)) =
                requests s @
                  [TokenRequest, SessionRequest tk ''default-conversation'',
                   StreamRequest tk sid (clock e (Suc (clockReads s))) (query_message q)] \<and>
              Map_get (sessionCache (snd (streamHandler e q s))) ''default-conversation'' =
                Some \<lparr>sessionId = sid, timestamp = clock e (clockReads s)\<rparr>"
    if "tokenResponse e (calls isTokenRequest s) = Inr tk"
      and "\<not> reusable e ''default-conversation'' s"
      and "sessionResponse e (calls isSessionRequest s) = Inr sid" for tk sid
    using streamHandler_resolved[of e s tk q] that key by (auto simp: Map_get_Map_set)
  from 1 2 3 4 show ?thesis by blast
qed

theorem streamHandler_omitted_conversationId_witness:
  "query_conversationId \<lparr>query_conversationId = None, query_message = Some ''one''\<rparr> = None \<and>
   streamHandler (stream_env ([''Hi''], Ended))
       \<lparr>query_conversationId = None, query_message = Some ''one''\<rparr> (example_world [])
     = streamHandler (stream_env ([''Hi''], Ended))
         \<lparr>query_conversationId = Some ''default-conversation'', query_message = Some ''one''\<rparr>
         (example_world []) \<and>
   streamHandler (stream_env ([''Hi''], Ended))
       \<lparr>query_conversationId = None, query_message = Some ''one''\<rparr> (example_world [])
     = ([Write (DataEvent ''Hi''), Write DoneEvent, End],
        \<lparr>sessionCache =
           [(''default-conversation'', \<lparr>sessionId = ''fresh'', timestamp = 5000000\<rparr>)],
         requests = [TokenRequest, SessionRequest ''token'' ''default-conversation'',
                     StreamRequest ''token'' ''fresh'' 5000001 (Some ''one'')],
         clockReads = 2, activities = []\<rparr>) \<and>
   requests (snd (streamHandler (stream_env ([''Hi''], Ended))
       \<lparr>query_conversationId = None, query_message = Some ''two''\<rparr>
       \<lparr>sessionCache =
           [(''default-conversation'', \<lparr>sessionId = ''fresh'', timestamp = 5000000\<rparr>)],
         requests = [], clockReads = 2, activities = []\<rparr>))
     = [TokenRequest, StreamRequest ''token'' ''fresh'' 5000003 (Some ''two'')]"
  (is "?A \<and> ?B \<and> ?C \<and> ?D")
proof -
  have a: ?A by simp
  from streamHandler_omitted_conversationId[OF a]
  have b: ?B by simp
  have c: ?C by (simp add: stream_defs)
  have d: ?D by (simp add: stream_defs)
  from a b c d show ?thesis by blast
qed

end
